theory Spec2Isabelle
  imports Complex_Main "HOL-Library.AList" "HOL-Library.Sublist" "HOL-Library.Multiset"
begin

section \<open>Domain model (package domain)\<close>

text \<open>
  Go's \<open>float64\<close> amounts are modelled as the real numbers they denote, with exact
  arithmetic: every finite \<open>float64\<close> is a dyadic rational, and the concrete inputs
  evaluated below are dyadic values on which the subtractions of the source are exact.
  Rounding error, NaN, infinities and negative zero are outside the model.

  A \<open>time.Time\<close> is modelled as the instant it denotes: nanoseconds since the Unix epoch,
  taken in UTC (the location \<open>time.Parse\<close> gives to the dates of the command line and
  of the files). A \<open>time.Duration\<close> is a number of nanoseconds.
\<close>

type_synonym TransactionType = string

definition DEBIT :: TransactionType where
  "DEBIT = ''DEBIT''"

definition CREDIT :: TransactionType where
  "CREDIT = ''CREDIT''"

type_synonym time = int

definition Nanosecond :: int where
  "Nanosecond = 1"

definition Hour :: int where
  "Hour = 3600 * 1000000000"

record SystemTransaction =
  TrxID :: string
  Amount :: real
  Type :: TransactionType
  TransactionTime :: time

record BankTransaction =
  UniqueIdentifier :: string
  BankAmount :: real
  Date :: time
  Description :: string
  BankSource :: string
  NormalizedAmount :: real
  BankType :: TransactionType

record DiscrepancyDetail =
  DetailSystemTransaction :: SystemTransaction
  DetailBankTransaction :: BankTransaction

text \<open>
  A Go slice or map field of the report is either \<open>nil\<close> (\<open>None\<close>) or an allocated
  container (\<open>Some\<close>); \<open>encoding/json\<close> renders the first as \<open>null\<close>. A Go map is an
  association list with distinct keys; the order in which \<open>range\<close> visits its keys is
  not the order of the list but a parameter of each loop (see \<open>iter_order\<close>).
\<close>

type_synonym 'a slice = "'a list option"

type_synonym ('k, 'v) gomap = "('k \<times> 'v) list"

record DiscrepantTransactions =
  Count :: nat
  TotalDiscrepancyValue :: real
  Details :: "DiscrepancyDetail slice"

record UnmatchedTransactions =
  UnmatchedCount :: nat
  SystemMissingFromBank :: "SystemTransaction slice"
  BankMissingFromSystem :: "(string, BankTransaction list) gomap option"

record Summary =
  TimeframeStart :: string
  TimeframeEnd :: string
  TotalSystemTransactionsProcessed :: nat
  TotalBankTransactionsProcessed :: nat
  MatchedTransactions :: nat

record ReconciliationReport =
  ReconciliationSummary :: Summary
  Discrepant :: DiscrepantTransactions
  Unmatched :: UnmatchedTransactions

text \<open>\<open>len\<close> and \<open>append\<close> on a possibly nil slice: appending no element to \<open>nil\<close> gives \<open>nil\<close>.\<close>

definition len :: "'a slice \<Rightarrow> nat" where
  "len s = (case s of None \<Rightarrow> 0 | Some xs \<Rightarrow> length xs)"

definition go_append :: "'a slice \<Rightarrow> 'a list \<Rightarrow> 'a slice" where
  "go_append s ys = (case s of None \<Rightarrow> (if ys = [] then None else Some ys) | Some xs \<Rightarrow> Some (xs @ ys))"

section \<open>Library functions used by the use case\<close>

text \<open>\<open>strings.Contains s substr\<close>: \<open>substr\<close> occurs in \<open>s\<close> as a contiguous block of bytes.\<close>

fun contains :: "string \<Rightarrow> string \<Rightarrow> bool" where
  "contains [] substr = (substr = [])"
| "contains (c # cs) substr = (prefix substr (c # cs) \<or> contains cs substr)"

text \<open>Decimal digits of a natural number, and the same padded with zeros to a width.\<close>

definition digit :: "nat \<Rightarrow> char" where
  "digit d = ''0123456789'' ! d"

function decimal :: "nat \<Rightarrow> string" where
  "decimal n = (if n < 10 then [digit n] else decimal (n div 10) @ [digit (n mod 10)])"
  by pat_completeness auto
termination
  by (relation "measure id") auto

definition pad :: "nat \<Rightarrow> string \<Rightarrow> string" where
  "pad w s = replicate (w - length s) (CHR ''0'') @ s"

text \<open>
  The civil date (year, month, day) of a day number counted from 1970-01-01, in the
  proleptic Gregorian calendar, as \<open>time.Time.Format\<close> computes it.
\<close>

definition civil :: "int \<Rightarrow> int \<times> int \<times> int" where
  "civil days =
     (let z = days + 719468;
          era = z div 146097;
          doe = z mod 146097;
          yoe = (doe - doe div 1460 + doe div 36524 - doe div 146096) div 365;
          y = yoe + era * 400;
          doy = doe - (365 * yoe + yoe div 4 - yoe div 100);
          mp = (5 * doy + 2) div 153;
          d = doy - (153 * mp + 2) div 5 + 1;
          m = (if mp < 10 then mp + 3 else mp - 9)
      in (if m \<le> 2 then y + 1 else y, m, d))"

text \<open>\<open>t.Format("2006-01-02")\<close>, which is also \<open>t.Format(time.DateOnly)\<close>.\<close>

definition format_date :: "time \<Rightarrow> string" where
  "format_date t =
     (case civil (t div (24 * Hour)) of (y, m, d) \<Rightarrow>
        (if y < 0 then ''-'' else []) @ pad 4 (decimal (nat \<bar>y\<bar>)) @ ''-'' @
        pad 2 (decimal (nat m)) @ ''-'' @ pad 2 (decimal (nat d)))"

text \<open>
  \<open>fmt.Sprintf("%.2f", a)\<close>: the sign, then the magnitude rounded to the nearest
  hundredth, a tie going to the even neighbour. A negative amount keeps its sign even
  when it rounds to zero.
\<close>

definition cents :: "real \<Rightarrow> nat" where
  "cents a =
     (let m = \<bar>a\<bar> * 100; f = \<lfloor>m\<rfloor>; r = m - of_int f
      in nat (if r < 1 / 2 then f else if 1 / 2 < r then f + 1
              else if even f then f else f + 1))"

definition format_2f :: "real \<Rightarrow> string" where
  "format_2f a =
     (if a < 0 then ''-'' else []) @ decimal (cents a div 100) @ ''.'' @
     pad 2 (decimal (cents a mod 100))"

section \<open>The use case (package usecase)\<close>

subsection \<open>Timeframe filtering\<close>

text \<open>
  \<open>txDate.Equal(start) || txDate.After(start)\<close> and
  \<open>txDate.Equal(end) || txDate.Before(end.Add(24*time.Hour-time.Hour))\<close>.
\<close>

definition filterSystemTransactionsByDate ::
  "SystemTransaction list \<Rightarrow> time \<Rightarrow> time \<Rightarrow> SystemTransaction list" where
  "filterSystemTransactionsByDate transactions start end' =
     filter (\<lambda>tx. let txDate = TransactionTime tx in
        (txDate = start \<or> start < txDate) \<and>
        (txDate = end' \<or> txDate < end' + (24 * Hour - Hour))) transactions"

text \<open>The bank side compares with \<open>end.Add(24*time.Hour-time.Nanosecond)\<close>.\<close>

definition filterBankTransactionsByDate ::
  "BankTransaction list \<Rightarrow> time \<Rightarrow> time \<Rightarrow> BankTransaction list" where
  "filterBankTransactionsByDate transactions start end' =
     filter (\<lambda>tx. let txDate = Date tx in
        (txDate = start \<or> start < txDate) \<and>
        (txDate = end' \<or> txDate < end' + (24 * Hour - Nanosecond))) transactions"

subsection \<open>Discrepancy evaluation and the grouping key\<close>

definition processMatch ::
  "ReconciliationReport \<Rightarrow> SystemTransaction \<Rightarrow> BankTransaction \<Rightarrow> ReconciliationReport" where
  "processMatch report sysTx bankTx =
     (let summary = ReconciliationSummary report;
          report1 = report\<lparr>ReconciliationSummary :=
            summary\<lparr>MatchedTransactions := MatchedTransactions summary + 1\<rparr>\<rparr>;
          d = Discrepant report1
      in if \<bar>Amount sysTx - NormalizedAmount bankTx\<bar> > 0.001 then
           (let diff = \<bar>Amount sysTx - NormalizedAmount bankTx\<bar>
            in report1\<lparr>Discrepant := d\<lparr>
                 Count := Count d + 1,
                 TotalDiscrepancyValue := TotalDiscrepancyValue d + diff,
                 Details := go_append (Details d)
                   [\<lparr>DetailSystemTransaction = sysTx, DetailBankTransaction = bankTx\<rparr>]\<rparr>\<rparr>)
         else report1)"

definition buildGroupKey :: "time \<Rightarrow> TransactionType \<Rightarrow> real \<Rightarrow> string" where
  "buildGroupKey t txType amount = format_date t @ ''-'' @ txType @ ''-'' @ format_2f amount"

definition systemKey :: "SystemTransaction \<Rightarrow> string" where
  "systemKey sysTx = buildGroupKey (TransactionTime sysTx) (Type sysTx) (Amount sysTx)"

definition bankKey :: "BankTransaction \<Rightarrow> string" where
  "bankKey bankTx = buildGroupKey (Date bankTx) (BankType bankTx) (NormalizedAmount bankTx)"

subsection \<open>The matcher state\<close>

text \<open>
  The local variables of \<open>Reconcile\<close> that the matching loops read and write. The two
  claim maps \<open>map[string]bool\<close> only ever store \<open>true\<close>, so each is the set of its keys.
  \<open>pairs\<close> is a ghost variable: the arguments of every call of \<open>processMatch\<close>, in call
  order. Nothing reads it.
\<close>

record mstate =
  report :: ReconciliationReport
  matchedSystem :: "string set"
  matchedBank :: "string set"
  systemMap :: "(string, SystemTransaction list) gomap"
  bankMap :: "(string, BankTransaction list) gomap"
  pairs :: "(SystemTransaction \<times> BankTransaction) list"

text \<open>The three statements every accepted match executes.\<close>

definition accept :: "mstate \<Rightarrow> SystemTransaction \<Rightarrow> BankTransaction \<Rightarrow> mstate" where
  "accept st sysTx bankTx =
     st\<lparr>report := processMatch (report st) sysTx bankTx,
        matchedSystem := insert (TrxID sysTx) (matchedSystem st),
        matchedBank := insert (UniqueIdentifier bankTx) (matchedBank st),
        pairs := pairs st @ [(sysTx, bankTx)]\<rparr>"

subsection \<open>Pass 1: unique identifier matching\<close>

definition pass1_body :: "BankTransaction \<Rightarrow> mstate \<Rightarrow> SystemTransaction \<Rightarrow> mstate" where
  "pass1_body bankTx st sysTx =
     (if TrxID sysTx \<in> matchedSystem st \<or> UniqueIdentifier bankTx \<in> matchedBank st then st
      else if contains (Description bankTx) (''trxID:'' @ TrxID sysTx) then accept st sysTx bankTx
      else st)"

definition pass1 :: "SystemTransaction list \<Rightarrow> BankTransaction list \<Rightarrow> mstate \<Rightarrow> mstate" where
  "pass1 filteredSystemTx filteredBankTx st =
     foldl (\<lambda>st bankTx. foldl (pass1_body bankTx) st filteredSystemTx) st filteredBankTx"

subsection \<open>Pass 2 and 3: exact and group matching\<close>

text \<open>\<open>m[key] = append(m[key], x)\<close>; a missing key reads as the nil slice.\<close>

definition group_append :: "'k \<Rightarrow> 'a \<Rightarrow> ('k, 'a list) gomap \<Rightarrow> ('k, 'a list) gomap" where
  "group_append key x m =
     AList.update key ((case map_of m key of None \<Rightarrow> [] | Some xs \<Rightarrow> xs) @ [x]) m"

definition build_systemMap :: "SystemTransaction list \<Rightarrow> mstate \<Rightarrow> mstate" where
  "build_systemMap filteredSystemTx st =
     st\<lparr>systemMap := foldl (\<lambda>m sysTx.
        if TrxID sysTx \<notin> matchedSystem st then group_append (systemKey sysTx) sysTx m else m)
        (systemMap st) filteredSystemTx\<rparr>"

definition build_bankMap :: "BankTransaction list \<Rightarrow> mstate \<Rightarrow> mstate" where
  "build_bankMap filteredBankTx st =
     st\<lparr>bankMap := foldl (\<lambda>m bankTx.
        if UniqueIdentifier bankTx \<notin> matchedBank st then group_append (bankKey bankTx) bankTx m else m)
        (bankMap st) filteredBankTx\<rparr>"

text \<open>
  \<open>range\<close> over a Go map visits every key once, in an order the language leaves
  unspecified and the runtime randomises. Each such loop takes the order as a parameter;
  \<open>iter_order ks m\<close> says that \<open>ks\<close> is an order \<open>range m\<close> can take.
\<close>

definition iter_order :: "'k list \<Rightarrow> ('k, 'v) gomap \<Rightarrow> bool" where
  "iter_order ks m = (distinct ks \<and> set ks = set (map fst m))"

text \<open>
  The body of \<open>for key, sysTxs := range systemMap\<close>. The inner loop runs \<open>i\<close> over both
  groups at once; it is entered only when they have the same length.
\<close>

definition match_key :: "mstate \<Rightarrow> string \<Rightarrow> mstate" where
  "match_key st key =
     (case map_of (systemMap st) key of
        None \<Rightarrow> st
      | Some sysTxs \<Rightarrow>
          (case map_of (bankMap st) key of
             None \<Rightarrow> st
           | Some bankTxs \<Rightarrow>
               if length sysTxs = length bankTxs then
                 (let st1 = foldl (\<lambda>st (sysTx, bankTx). accept st sysTx bankTx) st (zip sysTxs bankTxs)
                  in st1\<lparr>systemMap := AList.delete key (systemMap st1),
                         bankMap := AList.delete key (bankMap st1)\<rparr>)
               else st))"

definition match_groups :: "string list \<Rightarrow> mstate \<Rightarrow> mstate" where
  "match_groups ks st = foldl match_key st ks"

subsection \<open>Collating the unmatched transactions\<close>

datatype 'e error =
  CouldNotGetSystemTransactions 'e
| CouldNotGetBankTransactions 'e
| AssignmentToNilMap

definition set_SystemMissingFromBank ::
  "SystemTransaction slice \<Rightarrow> ReconciliationReport \<Rightarrow> ReconciliationReport" where
  "set_SystemMissingFromBank v r = r\<lparr>Unmatched := (Unmatched r)\<lparr>SystemMissingFromBank := v\<rparr>\<rparr>"

definition collate_system :: "string list \<Rightarrow> mstate \<Rightarrow> ReconciliationReport" where
  "collate_system ks st =
     foldl (\<lambda>r key. case map_of (systemMap st) key of
                       None \<Rightarrow> r
                     | Some sysTxs \<Rightarrow>
                         set_SystemMissingFromBank
                           (go_append (SystemMissingFromBank (Unmatched r)) sysTxs) r)
       (report st) ks"

text \<open>
  \<open>m[bankTx.BankSource] = append(m[bankTx.BankSource], bankTx)\<close> for every record of the
  groups left in \<open>bankMap\<close>. Assigning into a nil map panics.
\<close>

fun bucket :: "BankTransaction list \<Rightarrow> (string, BankTransaction list) gomap option \<Rightarrow>
    'e error + (string, BankTransaction list) gomap option" where
  "bucket [] m = Inr m"
| "bucket (bankTx # bankTxs) m =
     (case m of
        None \<Rightarrow> Inl AssignmentToNilMap
      | Some al \<Rightarrow> bucket bankTxs (Some (group_append (BankSource bankTx) bankTx al)))"

fun collate_bank :: "string list \<Rightarrow> (string, BankTransaction list) gomap \<Rightarrow>
    (string, BankTransaction list) gomap option \<Rightarrow>
    'e error + (string, BankTransaction list) gomap option" where
  "collate_bank [] bm m = Inr m"
| "collate_bank (key # ks) bm m =
     (case map_of bm key of
        None \<Rightarrow> collate_bank ks bm m
      | Some bankTxs \<Rightarrow>
          (case bucket bankTxs m of
             Inl e \<Rightarrow> Inl e
           | Inr m' \<Rightarrow> collate_bank ks bm m'))"

text \<open>The sum of the bucket sizes; a sum of integers does not depend on the order of the range.\<close>

definition countBankMapItems :: "(string, BankTransaction list) gomap option \<Rightarrow> nat" where
  "countBankMapItems m =
     (case m of None \<Rightarrow> 0 | Some al \<Rightarrow> foldl (\<lambda>count (k, v). count + length v) 0 al)"

subsection \<open>Reconcile\<close>

text \<open>
  The orders taken by the three \<open>range\<close> loops over \<open>systemMap\<close> and \<open>bankMap\<close>: the
  matching loop, the collation of \<open>systemMap\<close> and the collation of \<open>bankMap\<close>.
\<close>

record orders =
  match_order :: "string list"
  system_order :: "string list"
  bank_order :: "string list"

definition initial_report :: "time \<Rightarrow> time \<Rightarrow> nat \<Rightarrow> nat \<Rightarrow> ReconciliationReport" where
  "initial_report start end' nsys nbank =
     \<lparr>ReconciliationSummary = \<lparr>
        TimeframeStart = format_date start,
        TimeframeEnd = format_date end',
        TotalSystemTransactionsProcessed = nsys,
        TotalBankTransactionsProcessed = nbank,
        MatchedTransactions = 0\<rparr>,
      Discrepant = \<lparr>Count = 0, TotalDiscrepancyValue = 0, Details = Some []\<rparr>,
      Unmatched = \<lparr>UnmatchedCount = 0, SystemMissingFromBank = None,
        BankMissingFromSystem = Some []\<rparr>\<rparr>"

definition initial_state :: "ReconciliationReport \<Rightarrow> mstate" where
  "initial_state r =
     \<lparr>report = r, matchedSystem = {}, matchedBank = {}, systemMap = [], bankMap = [], pairs = []\<rparr>"

text \<open>Step 3 up to the two grouping loops, and then with the matching loop over the groups.\<close>

definition grouping ::
  "ReconciliationReport \<Rightarrow> SystemTransaction list \<Rightarrow> BankTransaction list \<Rightarrow> mstate" where
  "grouping r filteredSystemTx filteredBankTx =
     build_bankMap filteredBankTx
       (build_systemMap filteredSystemTx
         (pass1 filteredSystemTx filteredBankTx (initial_state r)))"

definition matching ::
  "string list \<Rightarrow> ReconciliationReport \<Rightarrow> SystemTransaction list \<Rightarrow> BankTransaction list \<Rightarrow> mstate" where
  "matching ks r filteredSystemTx filteredBankTx =
     match_groups ks (grouping r filteredSystemTx filteredBankTx)"

text \<open>Step 4: collation and the unmatched count.\<close>

definition collate :: "orders \<Rightarrow> mstate \<Rightarrow> 'e error + ReconciliationReport" where
  "collate ord st =
     (let r1 = collate_system (system_order ord) st
      in case collate_bank (bank_order ord) (bankMap st) (BankMissingFromSystem (Unmatched r1)) of
           Inl e \<Rightarrow> Inl e
         | Inr m \<Rightarrow>
             (let u = (Unmatched r1)\<lparr>BankMissingFromSystem := m\<rparr>
              in Inr (r1\<lparr>Unmatched := u\<lparr>UnmatchedCount :=
                   len (SystemMissingFromBank u) + countBankMapItems (BankMissingFromSystem u)\<rparr>\<rparr>)))"

text \<open>
  The repository is given by what its two calls return. \<open>GetBankTransactions\<close> is only
  called when \<open>GetSystemTransactions\<close> has succeeded.
\<close>

definition Reconcile ::
  "orders \<Rightarrow> 'e + SystemTransaction list \<Rightarrow> 'e + BankTransaction list \<Rightarrow> time \<Rightarrow> time \<Rightarrow>
     'e error + ReconciliationReport" where
  "Reconcile ord systemResult bankResult start end' =
     (case systemResult of
        Inl err \<Rightarrow> Inl (CouldNotGetSystemTransactions err)
      | Inr systemTransactions \<Rightarrow>
          (case bankResult of
             Inl err \<Rightarrow> Inl (CouldNotGetBankTransactions err)
           | Inr bankTransactions \<Rightarrow>
               (let filteredSystemTx = filterSystemTransactionsByDate systemTransactions start end';
                    filteredBankTx = filterBankTransactionsByDate bankTransactions start end';
                    r = initial_report start end' (length filteredSystemTx) (length filteredBankTx)
                in collate ord (matching (match_order ord) r filteredSystemTx filteredBankTx))))"

section \<open>Vocabulary of the properties\<close>

text \<open>
  \<open>range_orders ord fs fb\<close>: the three orders of \<open>ord\<close> are orders that the three \<open>range\<close>
  loops of a run on the filtered lists \<open>fs\<close> and \<open>fb\<close> can take, each over the map as it
  is when its loop starts. The maps do not depend on the report the run starts from.
\<close>

definition range_orders :: "orders \<Rightarrow> SystemTransaction list \<Rightarrow> BankTransaction list \<Rightarrow> bool" where
  "range_orders ord fs fb =
     (let r = initial_report 0 0 (length fs) (length fb);
          st2 = grouping r fs fb;
          st3 = match_groups (match_order ord) st2
      in iter_order (match_order ord) (systemMap st2) \<and>
         iter_order (system_order ord) (systemMap st3) \<and>
         iter_order (bank_order ord) (bankMap st3))"

text \<open>The accepted pairs of a run on filtered lists, in call order: those of pass 1, then those of the groups.\<close>

definition pass1_pairs ::
  "SystemTransaction list \<Rightarrow> BankTransaction list \<Rightarrow> (SystemTransaction \<times> BankTransaction) list" where
  "pass1_pairs fs fb = pairs (pass1 fs fb (initial_state (initial_report 0 0 (length fs) (length fb))))"

definition matched_pairs ::
  "string list \<Rightarrow> SystemTransaction list \<Rightarrow> BankTransaction list \<Rightarrow> (SystemTransaction \<times> BankTransaction) list" where
  "matched_pairs ks fs fb = pairs (matching ks (initial_report 0 0 (length fs) (length fb)) fs fb)"

definition grouped_pairs ::
  "string list \<Rightarrow> SystemTransaction list \<Rightarrow> BankTransaction list \<Rightarrow> (SystemTransaction \<times> BankTransaction) list" where
  "grouped_pairs ks fs fb = drop (length (pass1_pairs fs fb)) (matched_pairs ks fs fb)"

text \<open>The records whose identifier pass 1 has left unclaimed, and their groups by key.\<close>

definition unclaimed_system :: "SystemTransaction list \<Rightarrow> BankTransaction list \<Rightarrow> SystemTransaction list" where
  "unclaimed_system fs fb = filter (\<lambda>s. TrxID s \<notin> TrxID ` fst ` set (pass1_pairs fs fb)) fs"

definition unclaimed_bank :: "SystemTransaction list \<Rightarrow> BankTransaction list \<Rightarrow> BankTransaction list" where
  "unclaimed_bank fs fb =
     filter (\<lambda>b. UniqueIdentifier b \<notin> UniqueIdentifier ` snd ` set (pass1_pairs fs fb)) fb"

definition system_group :: "SystemTransaction list \<Rightarrow> BankTransaction list \<Rightarrow> string \<Rightarrow> SystemTransaction list" where
  "system_group fs fb key = filter (\<lambda>s. systemKey s = key) (unclaimed_system fs fb)"

definition bank_group :: "SystemTransaction list \<Rightarrow> BankTransaction list \<Rightarrow> string \<Rightarrow> BankTransaction list" where
  "bank_group fs fb key = filter (\<lambda>b. bankKey b = key) (unclaimed_bank fs fb)"

text \<open>The discrepancy of a pair and the test \<open>processMatch\<close> applies to it.\<close>

definition discrepancy :: "SystemTransaction \<times> BankTransaction \<Rightarrow> real" where
  "discrepancy p = \<bar>Amount (fst p) - NormalizedAmount (snd p)\<bar>"

definition exceeds :: "SystemTransaction \<times> BankTransaction \<Rightarrow> bool" where
  "exceeds p = (discrepancy p > 0.001)"

definition detail :: "SystemTransaction \<times> BankTransaction \<Rightarrow> DiscrepancyDetail" where
  "detail p = \<lparr>DetailSystemTransaction = fst p, DetailBankTransaction = snd p\<rparr>"

text \<open>The records of a bucket of the bank-only map, and the elements of a slice (none for nil).\<close>

definition bucket_of :: "ReconciliationReport \<Rightarrow> string \<Rightarrow> BankTransaction list" where
  "bucket_of r src =
     (case BankMissingFromSystem (Unmatched r) of
        None \<Rightarrow> []
      | Some al \<Rightarrow> (case map_of al src of None \<Rightarrow> [] | Some bankTxs \<Rightarrow> bankTxs))"

definition elems :: "'a slice \<Rightarrow> 'a list" where
  "elems s = (case s of None \<Rightarrow> [] | Some xs \<Rightarrow> xs)"

text \<open>
  Pass 1 in the words of the specification: bank records in order; a bank record whose
  identifier is unclaimed takes the first system record, in order, whose identifier is
  unclaimed and whose token its description contains.
\<close>

definition qualifies :: "mstate \<Rightarrow> BankTransaction \<Rightarrow> SystemTransaction \<Rightarrow> bool" where
  "qualifies st bankTx sysTx =
     (TrxID sysTx \<notin> matchedSystem st \<and> UniqueIdentifier bankTx \<notin> matchedBank st \<and>
      contains (Description bankTx) (''trxID:'' @ TrxID sysTx))"

definition first_match :: "SystemTransaction list \<Rightarrow> mstate \<Rightarrow> BankTransaction \<Rightarrow> mstate" where
  "first_match fs st bankTx =
     (case find (qualifies st bankTx) fs of None \<Rightarrow> st | Some sysTx \<Rightarrow> accept st sysTx bankTx)"

definition pass1_spec :: "SystemTransaction list \<Rightarrow> BankTransaction list \<Rightarrow> mstate \<Rightarrow> mstate" where
  "pass1_spec fs fb st = foldl (first_match fs) st fb"

section \<open>Vocabulary of the proofs\<close>

text \<open>\<open>processMatch\<close> called on a list of pairs, in order.\<close>

definition apply_pairs ::
  "ReconciliationReport \<Rightarrow> (SystemTransaction \<times> BankTransaction) list \<Rightarrow> ReconciliationReport" where
  "apply_pairs r ps = foldl (\<lambda>r (s, b). processMatch r s b) r ps"

text \<open>The report is the initial report with \<open>processMatch\<close> applied to the accepted pairs.\<close>

definition tracked :: "ReconciliationReport \<Rightarrow> mstate \<Rightarrow> bool" where
  "tracked r0 st = (report st = apply_pairs r0 (pairs st))"

text \<open>The part of the state that the matching decisions read: everything but the report.\<close>

definition core ::
  "mstate \<Rightarrow> string set \<times> string set \<times> (string, SystemTransaction list) gomap \<times>
     (string, BankTransaction list) gomap \<times> (SystemTransaction \<times> BankTransaction) list" where
  "core st = (matchedSystem st, matchedBank st, systemMap st, bankMap st, pairs st)"

text \<open>What pass 1 maintains about the claim sets and the accepted pairs.\<close>

definition claims_ok :: "SystemTransaction list \<Rightarrow> BankTransaction list \<Rightarrow> mstate \<Rightarrow> bool" where
  "claims_ok fs fb st =
     (matchedSystem st = TrxID ` fst ` set (pairs st) \<and>
      matchedBank st = UniqueIdentifier ` snd ` set (pairs st) \<and>
      distinct (map (TrxID \<circ> fst) (pairs st)) \<and>
      distinct (map (UniqueIdentifier \<circ> snd) (pairs st)) \<and>
      (\<forall>p \<in> set (pairs st). fst p \<in> set fs \<and> snd p \<in> set fb \<and>
         contains (Description (snd p)) (''trxID:'' @ TrxID (fst p))))"

text \<open>Whether the matching loop pairs the groups of a key, and the pairs it then accepts.\<close>

definition key_matches :: "mstate \<Rightarrow> string \<Rightarrow> bool" where
  "key_matches st key =
     (case map_of (systemMap st) key of
        None \<Rightarrow> False
      | Some ss \<Rightarrow> (case map_of (bankMap st) key of None \<Rightarrow> False | Some bs \<Rightarrow> length ss = length bs))"

definition key_pairs :: "mstate \<Rightarrow> string \<Rightarrow> (SystemTransaction \<times> BankTransaction) list" where
  "key_pairs st key =
     (case map_of (systemMap st) key of
        None \<Rightarrow> []
      | Some ss \<Rightarrow> (case map_of (bankMap st) key of
           None \<Rightarrow> []
         | Some bs \<Rightarrow> if length ss = length bs then zip ss bs else []))"

text \<open>A group of a map (empty for a missing key), and the bank-only map built from a list of records.\<close>

definition lookup_list :: "('k, 'a list) gomap \<Rightarrow> 'k \<Rightarrow> 'a list" where
  "lookup_list m key = (case map_of m key of None \<Rightarrow> [] | Some xs \<Rightarrow> xs)"

definition buckets :: "BankTransaction list \<Rightarrow> (string, BankTransaction list) gomap" where
  "buckets bankTxs = foldl (\<lambda>al bankTx. group_append (BankSource bankTx) bankTx al) [] bankTxs"

text \<open>
  The records the two collation loops append, in the order they append them, and the
  report of a run in closed form.
\<close>

definition system_only :: "orders \<Rightarrow> SystemTransaction list \<Rightarrow> BankTransaction list \<Rightarrow> SystemTransaction list" where
  "system_only ord fs fb =
     concat (map (lookup_list (systemMap
       (matching (match_order ord) (initial_report 0 0 (length fs) (length fb)) fs fb)))
       (system_order ord))"

definition bank_only :: "orders \<Rightarrow> SystemTransaction list \<Rightarrow> BankTransaction list \<Rightarrow> BankTransaction list" where
  "bank_only ord fs fb =
     concat (map (lookup_list (bankMap
       (matching (match_order ord) (initial_report 0 0 (length fs) (length fb)) fs fb)))
       (bank_order ord))"

definition final_report ::
  "orders \<Rightarrow> SystemTransaction list \<Rightarrow> BankTransaction list \<Rightarrow> time \<Rightarrow> time \<Rightarrow> ReconciliationReport" where
  "final_report ord fs fb start end' =
     (let ps = matched_pairs (match_order ord) fs fb
      in \<lparr>ReconciliationSummary = \<lparr>
             TimeframeStart = format_date start,
             TimeframeEnd = format_date end',
             TotalSystemTransactionsProcessed = length fs,
             TotalBankTransactionsProcessed = length fb,
             MatchedTransactions = length ps\<rparr>,
           Discrepant = \<lparr>
             Count = length (filter exceeds ps),
             TotalDiscrepancyValue = sum_list (map discrepancy (filter exceeds ps)),
             Details = Some (map detail (filter exceeds ps))\<rparr>,
           Unmatched = \<lparr>
             UnmatchedCount = length (system_only ord fs fb) + length (bank_only ord fs fb),
             SystemMissingFromBank = go_append None (system_only ord fs fb),
             BankMissingFromSystem = Some (buckets (bank_only ord fs fb))\<rparr>\<rparr>)"

section \<open>Slices\<close>

lemma go_append_assoc: "go_append (go_append v xs) ys = go_append v (xs @ ys)"
  by (cases v) (auto simp: go_append_def)

lemma go_append_Nil: "go_append v [] = v"
  by (cases v) (auto simp: go_append_def)

lemma go_append_Some: "go_append (Some xs) ys = Some (xs @ ys)"
  by (simp add: go_append_def)

lemma elems_go_append: "elems (go_append v ys) = elems v @ ys"
  by (cases v) (auto simp: go_append_def elems_def)

lemma len_elems: "len v = length (elems v)"
  by (cases v) (auto simp: len_def elems_def)

lemma go_append_None_iff: "go_append v ys = None \<longleftrightarrow> v = None \<and> ys = []"
  by (cases v) (auto simp: go_append_def)

section \<open>processMatch and the accepted pairs\<close>

lemma processMatch_summary:
  "ReconciliationSummary (processMatch r s b) =
     (ReconciliationSummary r)\<lparr>MatchedTransactions := MatchedTransactions (ReconciliationSummary r) + 1\<rparr>"
  by (simp add: processMatch_def Let_def)

lemma processMatch_unmatched: "Unmatched (processMatch r s b) = Unmatched r"
  by (simp add: processMatch_def Let_def)

lemma processMatch_discrepant:
  "Discrepant (processMatch r s b) =
     (if exceeds (s, b) then
        (Discrepant r)\<lparr>Count := Count (Discrepant r) + 1,
          TotalDiscrepancyValue := TotalDiscrepancyValue (Discrepant r) + discrepancy (s, b),
          Details := go_append (Details (Discrepant r)) [detail (s, b)]\<rparr>
      else Discrepant r)"
  by (simp add: processMatch_def Let_def exceeds_def discrepancy_def detail_def)

lemma apply_pairs_snoc: "apply_pairs r (ps @ [(s, b)]) = processMatch (apply_pairs r ps) s b"
  by (simp add: apply_pairs_def)

lemma apply_pairs_unmatched: "Unmatched (apply_pairs r ps) = Unmatched r"
  by (induction ps rule: rev_induct) (auto simp: apply_pairs_snoc processMatch_unmatched apply_pairs_def)

lemma apply_pairs_summary:
  "ReconciliationSummary (apply_pairs r ps) =
     (ReconciliationSummary r)\<lparr>MatchedTransactions := MatchedTransactions (ReconciliationSummary r) + length ps\<rparr>"
proof (induction ps rule: rev_induct)
  case Nil
  show ?case by (simp add: apply_pairs_def)
next
  case (snoc p ps)
  obtain s b where p: "p = (s, b)" by (cases p)
  show ?case unfolding p apply_pairs_snoc processMatch_summary snoc.IH by simp
qed

lemma apply_pairs_discrepant:
  "Discrepant (apply_pairs r ps) =
     (Discrepant r)\<lparr>Count := Count (Discrepant r) + length (filter exceeds ps),
        TotalDiscrepancyValue := TotalDiscrepancyValue (Discrepant r) + sum_list (map discrepancy (filter exceeds ps)),
        Details := go_append (Details (Discrepant r)) (map detail (filter exceeds ps))\<rparr>"
proof (induction ps rule: rev_induct)
  case Nil
  show ?case by (simp add: apply_pairs_def go_append_Nil)
next
  case (snoc p ps)
  obtain s b where p: "p = (s, b)" by (cases p)
  show ?case unfolding p apply_pairs_snoc processMatch_discrepant snoc.IH
    by (simp add: go_append_assoc)
qed

lemma foldl_invariant:
  assumes "P s" and "\<And>s x. P s \<Longrightarrow> x \<in> set xs \<Longrightarrow> P (f s x)"
  shows "P (foldl f s xs)"
  using assms by (induction xs arbitrary: s) auto

lemma accept_simps:
  "report (accept st s b) = processMatch (report st) s b"
  "matchedSystem (accept st s b) = insert (TrxID s) (matchedSystem st)"
  "matchedBank (accept st s b) = insert (UniqueIdentifier b) (matchedBank st)"
  "systemMap (accept st s b) = systemMap st"
  "bankMap (accept st s b) = bankMap st"
  "pairs (accept st s b) = pairs st @ [(s, b)]"
  by (simp_all add: accept_def)

lemma tracked_accept: "tracked r0 st \<Longrightarrow> tracked r0 (accept st s b)"
  by (simp add: tracked_def accept_simps apply_pairs_snoc)

lemma tracked_pass1_body: "tracked r0 st \<Longrightarrow> tracked r0 (pass1_body b st s)"
  by (simp add: pass1_body_def tracked_accept)

lemma tracked_pass1: "tracked r0 st \<Longrightarrow> tracked r0 (pass1 fs fb st)"
proof -
  assume t: "tracked r0 st"
  have inner: "tracked r0 (foldl (pass1_body b) s fs)" if "tracked r0 s" for s b
    using that by (rule foldl_invariant[where P = "tracked r0"]) (rule tracked_pass1_body)
  show ?thesis
    unfolding pass1_def using t
    by (rule foldl_invariant[where P = "tracked r0"]) (rule inner)
qed

lemma tracked_build_systemMap: "tracked r0 st \<Longrightarrow> tracked r0 (build_systemMap fs st)"
  by (simp add: tracked_def build_systemMap_def)

lemma tracked_build_bankMap: "tracked r0 st \<Longrightarrow> tracked r0 (build_bankMap fb st)"
  by (simp add: tracked_def build_bankMap_def)

lemma tracked_accept_zip:
  "tracked r0 st \<Longrightarrow> tracked r0 (foldl (\<lambda>st (sysTx, bankTx). accept st sysTx bankTx) st ps)"
  by (rule foldl_invariant[where P = "tracked r0"]) (auto simp: tracked_accept)

lemma tracked_delete:
  "tracked r0 st \<Longrightarrow> tracked r0 (st\<lparr>systemMap := a, bankMap := b\<rparr>)"
  by (simp add: tracked_def)

lemma tracked_match_key: "tracked r0 st \<Longrightarrow> tracked r0 (match_key st key)"
  unfolding match_key_def Let_def
  by (simp add: tracked_delete tracked_accept_zip split: option.splits)

lemma tracked_match_groups: "tracked r0 st \<Longrightarrow> tracked r0 (match_groups ks st)"
  unfolding match_groups_def
  by (rule foldl_invariant[where P = "tracked r0"]) (auto simp: tracked_match_key)

lemma tracked_initial: "tracked r (initial_state r)"
  by (simp add: tracked_def initial_state_def apply_pairs_def)

lemma tracked_matching: "tracked r (matching ks r fs fb)"
  unfolding matching_def grouping_def
  by (rule tracked_match_groups, rule tracked_build_bankMap, rule tracked_build_systemMap,
      rule tracked_pass1, rule tracked_initial)

lemma report_matching: "report (matching ks r fs fb) = apply_pairs r (pairs (matching ks r fs fb))"
  using tracked_matching[of r ks fs fb] by (simp add: tracked_def)

lemma foldl_core:
  assumes step: "\<And>x s s'. core s = core s' \<Longrightarrow> core (f s x) = core (f s' x)"
    and "core s = core s'"
  shows "core (foldl f s xs) = core (foldl f s' xs)"
  using assms(2)
proof (induction xs arbitrary: s s')
  case Nil
  then show ?case by simp
next
  case (Cons x xs)
  have "core (f s x) = core (f s' x)" using Cons.prems by (rule step)
  then have "core (foldl f (f s x) xs) = core (foldl f (f s' x) xs)" by (rule Cons.IH)
  then show ?case by simp
qed

lemma core_accept: "core st = core st' \<Longrightarrow> core (accept st s b) = core (accept st' s b)"
  by (simp add: core_def accept_simps)

lemma core_pass1_body: "core st = core st' \<Longrightarrow> core (pass1_body b st s) = core (pass1_body b st' s)"
proof -
  assume c: "core st = core st'"
  then have m: "matchedSystem st = matchedSystem st'" "matchedBank st = matchedBank st'"
    by (simp_all add: core_def)
  show ?thesis
    unfolding pass1_body_def m using c core_accept[OF c, of s b] by simp
qed

lemma core_pass1: "core st = core st' \<Longrightarrow> core (pass1 fs fb st) = core (pass1 fs fb st')"
proof -
  assume c: "core st = core st'"
  have inner: "core (foldl (pass1_body b) s fs) = core (foldl (pass1_body b) s' fs)"
    if "core s = core s'" for s s' b
    using core_pass1_body that by (rule foldl_core[where f = "pass1_body b"])
  show ?thesis
    unfolding pass1_def
    by (rule foldl_core[where f = "\<lambda>st bankTx. foldl (pass1_body bankTx) st fs"]) (rule inner, assumption, rule c)
qed

lemma core_build_systemMap: "core st = core st' \<Longrightarrow> core (build_systemMap fs st) = core (build_systemMap fs st')"
  by (simp add: core_def build_systemMap_def)

lemma core_build_bankMap: "core st = core st' \<Longrightarrow> core (build_bankMap fs st) = core (build_bankMap fs st')"
  by (simp add: core_def build_bankMap_def)

lemma core_accept_zip:
  assumes "core st = core st'"
  shows "core (foldl (\<lambda>st (sysTx, bankTx). accept st sysTx bankTx) st ps) =
         core (foldl (\<lambda>st (sysTx, bankTx). accept st sysTx bankTx) st' ps)"
proof (rule foldl_core[where f = "\<lambda>st (sysTx, bankTx). accept st sysTx bankTx"])
  fix x :: "SystemTransaction \<times> BankTransaction" and s s' :: mstate
  assume "core s = core s'"
  then show "core (case x of (sysTx, bankTx) \<Rightarrow> accept s sysTx bankTx) =
             core (case x of (sysTx, bankTx) \<Rightarrow> accept s' sysTx bankTx)"
    by (cases x) (simp add: core_def accept_simps)
qed (rule assms)

lemma core_delete:
  "core st = core st' \<Longrightarrow>
   core (st\<lparr>systemMap := AList.delete key (systemMap st), bankMap := AList.delete key (bankMap st)\<rparr>) =
   core (st'\<lparr>systemMap := AList.delete key (systemMap st'), bankMap := AList.delete key (bankMap st')\<rparr>)"
  by (simp add: core_def)

lemma core_match_key: "core st = core st' \<Longrightarrow> core (match_key st key) = core (match_key st' key)"
proof -
  assume c: "core st = core st'"
  then have m: "systemMap st = systemMap st'" "bankMap st = bankMap st'" by (simp_all add: core_def)
  show ?thesis
  proof (cases "map_of (systemMap st') key")
    case None
    then show ?thesis using c by (simp add: match_key_def m)
  next
    case (Some sysTxs)
    note S = this
    show ?thesis
    proof (cases "map_of (bankMap st') key")
      case None
      then show ?thesis using c S by (simp add: match_key_def m)
    next
      case (Some bankTxs)
      show ?thesis
      proof (cases "length sysTxs = length bankTxs")
        case True
        then show ?thesis
          using core_delete[OF core_accept_zip[OF c, of "zip sysTxs bankTxs"], of key] S Some
          by (simp add: match_key_def m Let_def)
      next
        case False
        then show ?thesis using c S Some by (simp add: match_key_def m)
      qed
    qed
  qed
qed

lemma core_match_groups: "core st = core st' \<Longrightarrow> core (match_groups ks st) = core (match_groups ks st')"
  unfolding match_groups_def
  by (rule foldl_core[where f = match_key]) (rule core_match_key)

lemma core_initial: "core (initial_state r) = core (initial_state r')"
  by (simp add: core_def initial_state_def)

lemma core_grouping: "core (grouping r fs fb) = core (grouping r' fs fb)"
  unfolding grouping_def
  by (rule core_build_bankMap, rule core_build_systemMap, rule core_pass1, rule core_initial)

lemma core_matching: "core (matching ks r fs fb) = core (matching ks r' fs fb)"
  unfolding matching_def by (rule core_match_groups, rule core_grouping)

section \<open>Pass 1\<close>

lemma pass1_body_cases:
  "pass1_body b st s = (if qualifies st b s then accept st s b else st)"
  by (auto simp: pass1_body_def qualifies_def)

lemma pass1_inner_claimed:
  "UniqueIdentifier b \<in> matchedBank st \<Longrightarrow> foldl (pass1_body b) st fs = st"
  by (induction fs) (auto simp: pass1_body_def)

lemma pass1_inner_first_match: "foldl (pass1_body b) st fs = first_match fs st b"
proof (induction fs)
  case Nil
  show ?case by (simp add: first_match_def)
next
  case (Cons s fs)
  show ?case
  proof (cases "qualifies st b s")
    case True
    have "UniqueIdentifier b \<in> matchedBank (accept st s b)" by (simp add: accept_simps)
    then have "foldl (pass1_body b) (accept st s b) fs = accept st s b"
      by (rule pass1_inner_claimed)
    moreover have "pass1_body b st s = accept st s b" using True by (simp add: pass1_body_cases)
    ultimately show ?thesis using True by (simp add: first_match_def)
  next
    case False
    moreover have "pass1_body b st s = st" using False by (simp add: pass1_body_cases)
    ultimately show ?thesis using Cons.IH by (simp add: first_match_def)
  qed
qed

lemma pass1_refines: "pass1 fs fb st = pass1_spec fs fb st"
  by (simp add: pass1_def pass1_spec_def pass1_inner_first_match[abs_def])

lemma claims_ok_initial: "claims_ok fs fb (initial_state r)"
  by (simp add: claims_ok_def initial_state_def)

lemma claims_ok_first_match:
  assumes "claims_ok fs fb st" and "b \<in> set fb" and "set fs' \<subseteq> set fs"
  shows "claims_ok fs fb (first_match fs' st b)"
proof (cases "find (qualifies st b) fs'")
  case None
  then show ?thesis using assms(1) by (simp add: first_match_def)
next
  case (Some s)
  then have q: "qualifies st b s" and "s \<in> set fs'"
    by (auto simp: find_Some_iff)
  then have s: "s \<in> set fs" using assms(3) by auto
  have fm: "first_match fs' st b = accept st s b" using Some by (simp add: first_match_def)
  show ?thesis
    unfolding fm using assms(1,2) q s
    by (auto simp: claims_ok_def accept_simps qualifies_def)
qed

lemma claims_ok_pass1_spec:
  assumes "claims_ok fs fb st" and "set fb' \<subseteq> set fb"
  shows "claims_ok fs fb (pass1_spec fs fb' st)"
  unfolding pass1_spec_def using assms(1)
proof (rule foldl_invariant[where P = "claims_ok fs fb"])
  fix s x assume "claims_ok fs fb s" "x \<in> set fb'"
  then show "claims_ok fs fb (first_match fs s x)"
    using assms(2) by (intro claims_ok_first_match) auto
qed

lemma claims_ok_pass1: "claims_ok fs fb (pass1 fs fb (initial_state r))"
  unfolding pass1_refines by (rule claims_ok_pass1_spec[OF claims_ok_initial]) simp

lemma pairs_pass1: "pairs (pass1 fs fb (initial_state r)) = pass1_pairs fs fb"
  using core_pass1[OF core_initial, of fs fb r] by (simp add: pass1_pairs_def core_def)

lemma matchedSystem_pass1:
  "matchedSystem (pass1 fs fb (initial_state r)) = TrxID ` fst ` set (pass1_pairs fs fb)"
  using claims_ok_pass1[of fs fb r] by (simp add: claims_ok_def pairs_pass1)

lemma matchedBank_pass1:
  "matchedBank (pass1 fs fb (initial_state r)) = UniqueIdentifier ` snd ` set (pass1_pairs fs fb)"
  using claims_ok_pass1[of fs fb r] by (simp add: claims_ok_def pairs_pass1)

lemma maps_pass1_body: "systemMap (pass1_body b st s) = systemMap st \<and> bankMap (pass1_body b st s) = bankMap st"
  by (simp add: pass1_body_def accept_simps)

lemma maps_pass1: "systemMap (pass1 fs fb st) = systemMap st \<and> bankMap (pass1 fs fb st) = bankMap st"
proof -
  have inner: "systemMap (foldl (pass1_body b) s fs) = systemMap st \<and> bankMap (foldl (pass1_body b) s fs) = bankMap st"
    if "systemMap s = systemMap st \<and> bankMap s = bankMap st" for s b
    using that by (rule foldl_invariant[where P = "\<lambda>s. systemMap s = systemMap st \<and> bankMap s = bankMap st"])
      (simp add: maps_pass1_body)
  show ?thesis unfolding pass1_def
    by (rule foldl_invariant[where P = "\<lambda>s. systemMap s = systemMap st \<and> bankMap s = bankMap st"])
       (simp, rule inner)
qed

section \<open>Grouping\<close>

lemma map_of_group_append:
  "map_of (group_append k x m) key =
     (if key = k then Some ((case map_of m k of None \<Rightarrow> [] | Some xs \<Rightarrow> xs) @ [x]) else map_of m key)"
  by (simp add: group_append_def update_conv')

lemma distinct_group_append: "distinct (map fst m) \<Longrightarrow> distinct (map fst (group_append k x m))"
  by (simp add: group_append_def distinct_update)

lemma map_of_group_fold:
  "map_of (foldl (\<lambda>m x. if P x then group_append (k x) x m else m) m0 xs) key =
     (case map_of m0 key of
        None \<Rightarrow> (if filter (\<lambda>x. P x \<and> k x = key) xs = [] then None
                  else Some (filter (\<lambda>x. P x \<and> k x = key) xs))
      | Some ys \<Rightarrow> Some (ys @ filter (\<lambda>x. P x \<and> k x = key) xs))"
proof (induction xs arbitrary: m0)
  case Nil
  show ?case by (simp split: option.splits)
next
  case (Cons x xs)
  show ?case
    by (simp add: Cons.IH map_of_group_append split: option.splits)
qed

lemma distinct_group_fold:
  "distinct (map fst m0) \<Longrightarrow>
   distinct (map fst (foldl (\<lambda>m x. if P x then group_append (k x) x m else m) m0 xs))"
  by (rule foldl_invariant[where P = "\<lambda>m. distinct (map fst m)"]) (auto simp: distinct_group_append)

section \<open>The state after grouping\<close>

lemma grouping_pairs: "pairs (grouping r fs fb) = pass1_pairs fs fb"
  by (simp add: grouping_def build_bankMap_def build_systemMap_def pairs_pass1)

lemma grouping_report: "report (grouping r fs fb) = apply_pairs r (pass1_pairs fs fb)"
  using tracked_pass1[OF tracked_initial, of r fs fb]
  by (simp add: grouping_def build_bankMap_def build_systemMap_def tracked_def pairs_pass1)

lemma grouping_systemMap:
  "map_of (systemMap (grouping r fs fb)) key =
     (if system_group fs fb key = [] then None else Some (system_group fs fb key))"
proof -
  have "systemMap (pass1 fs fb (initial_state r)) = []"
    using maps_pass1[of fs fb "initial_state r"] by (simp add: initial_state_def)
  then show ?thesis
    by (simp add: grouping_def build_bankMap_def build_systemMap_def map_of_group_fold
        matchedSystem_pass1 system_group_def unclaimed_system_def)
qed

lemma grouping_bankMap:
  "map_of (bankMap (grouping r fs fb)) key =
     (if bank_group fs fb key = [] then None else Some (bank_group fs fb key))"
proof -
  have "bankMap (pass1 fs fb (initial_state r)) = []"
    using maps_pass1[of fs fb "initial_state r"] by (simp add: initial_state_def)
  then show ?thesis
    by (simp add: grouping_def build_bankMap_def build_systemMap_def map_of_group_fold
        matchedBank_pass1 bank_group_def unclaimed_bank_def)
qed

lemma keys_map_of: "set (map fst m) = {k. map_of m k \<noteq> None}"
  using dom_map_of_conv_image_fst[of m] by (auto simp: dom_def)

section \<open>The matching loop over the groups\<close>

lemma accept_zip:
  "pairs (foldl (\<lambda>st (sysTx, bankTx). accept st sysTx bankTx) st ps) = pairs st @ ps \<and>
   systemMap (foldl (\<lambda>st (sysTx, bankTx). accept st sysTx bankTx) st ps) = systemMap st \<and>
   bankMap (foldl (\<lambda>st (sysTx, bankTx). accept st sysTx bankTx) st ps) = bankMap st"
  by (induction ps arbitrary: st) (auto simp: accept_simps)

lemma match_key_pairs: "pairs (match_key st key) = pairs st @ key_pairs st key"
  by (simp add: match_key_def key_pairs_def Let_def accept_zip split: option.splits)

lemma match_key_systemMap:
  "systemMap (match_key st key) =
     (if key_matches st key then AList.delete key (systemMap st) else systemMap st)"
  by (simp add: match_key_def key_matches_def Let_def accept_zip split: option.splits)

lemma match_key_bankMap:
  "bankMap (match_key st key) =
     (if key_matches st key then AList.delete key (bankMap st) else bankMap st)"
  by (simp add: match_key_def key_matches_def Let_def accept_zip split: option.splits)

lemma match_key_other:
  assumes "k \<noteq> key"
  shows "map_of (systemMap (match_key st key)) k = map_of (systemMap st) k"
    and "map_of (bankMap (match_key st key)) k = map_of (bankMap st) k"
  using assms by (simp_all add: match_key_systemMap match_key_bankMap delete_conv')

lemma match_key_other_matches:
  assumes "k \<noteq> key"
  shows "key_matches (match_key st key) k = key_matches st k"
    and "key_pairs (match_key st key) k = key_pairs st k"
  unfolding key_matches_def key_pairs_def match_key_other[OF assms] by simp_all

lemma match_groups_Cons: "match_groups (k # ks) st = match_groups ks (match_key st k)"
  by (simp add: match_groups_def)

lemma match_groups_pairs:
  "distinct ks \<Longrightarrow> pairs (match_groups ks st) = pairs st @ concat (map (key_pairs st) ks)"
proof (induction ks arbitrary: st)
  case Nil
  show ?case by (simp add: match_groups_def)
next
  case (Cons k ks)
  have "map (key_pairs (match_key st k)) ks = map (key_pairs st) ks"
    using Cons.prems by (intro map_cong refl match_key_other_matches(2)) auto
  then have "concat (map (key_pairs (match_key st k)) ks) = concat (map (key_pairs st) ks)"
    by (rule arg_cong)
  moreover have "pairs (match_groups ks (match_key st k)) =
      pairs (match_key st k) @ concat (map (key_pairs (match_key st k)) ks)"
    using Cons.IH[of "match_key st k"] Cons.prems by simp
  ultimately show ?case
    by (simp add: match_groups_Cons match_key_pairs)
qed

lemma match_groups_systemMap:
  "distinct ks \<Longrightarrow>
   map_of (systemMap (match_groups ks st)) key =
     (if key \<in> set ks \<and> key_matches st key then None else map_of (systemMap st) key)"
proof (induction ks arbitrary: st)
  case Nil
  show ?case by (simp add: match_groups_def)
next
  case (Cons k ks)
  have ih: "map_of (systemMap (match_groups ks (match_key st k))) key =
     (if key \<in> set ks \<and> key_matches (match_key st k) key then None
      else map_of (systemMap (match_key st k)) key)"
    using Cons.IH[of "match_key st k"] Cons.prems by simp
  show ?case
  proof (cases "key = k")
    case True
    then have "key \<notin> set ks" using Cons.prems by simp
    then show ?thesis unfolding match_groups_Cons ih using True
      by (simp add: match_key_systemMap delete_conv')
  next
    case False
    then show ?thesis unfolding match_groups_Cons ih
      by (simp add: match_key_other_matches match_key_other)
  qed
qed

lemma match_groups_bankMap:
  "distinct ks \<Longrightarrow>
   map_of (bankMap (match_groups ks st)) key =
     (if key \<in> set ks \<and> key_matches st key then None else map_of (bankMap st) key)"
proof (induction ks arbitrary: st)
  case Nil
  show ?case by (simp add: match_groups_def)
next
  case (Cons k ks)
  have ih: "map_of (bankMap (match_groups ks (match_key st k))) key =
     (if key \<in> set ks \<and> key_matches (match_key st k) key then None
      else map_of (bankMap (match_key st k)) key)"
    using Cons.IH[of "match_key st k"] Cons.prems by simp
  show ?case
  proof (cases "key = k")
    case True
    then have "key \<notin> set ks" using Cons.prems by simp
    then show ?thesis unfolding match_groups_Cons ih using True
      by (simp add: match_key_bankMap delete_conv')
  next
    case False
    then show ?thesis unfolding match_groups_Cons ih
      by (simp add: match_key_other_matches match_key_other)
  qed
qed

section \<open>Collation\<close>

lemma set_SMB_same: "set_SystemMissingFromBank (SystemMissingFromBank (Unmatched r)) r = r"
  by (simp add: set_SystemMissingFromBank_def)

lemma set_SMB_twice:
  "set_SystemMissingFromBank v (set_SystemMissingFromBank w r) = set_SystemMissingFromBank v r"
  by (simp add: set_SystemMissingFromBank_def)

lemma SMB_set_SMB: "SystemMissingFromBank (Unmatched (set_SystemMissingFromBank v r)) = v"
  by (simp add: set_SystemMissingFromBank_def)

lemma collate_system_fold:
  "foldl (\<lambda>r key. case map_of m key of
                     None \<Rightarrow> r
                   | Some sysTxs \<Rightarrow>
                       set_SystemMissingFromBank
                         (go_append (SystemMissingFromBank (Unmatched r)) sysTxs) r) r ks =
   set_SystemMissingFromBank
     (go_append (SystemMissingFromBank (Unmatched r)) (concat (map (lookup_list m) ks))) r"
proof (induction ks arbitrary: r)
  case Nil
  show ?case by (simp add: go_append_Nil set_SMB_same)
next
  case (Cons k ks)
  show ?case
  proof (cases "map_of m k")
    case None
    then show ?thesis by (simp add: Cons.IH lookup_list_def)
  next
    case (Some g)
    then show ?thesis
      by (simp add: Cons.IH lookup_list_def SMB_set_SMB set_SMB_twice go_append_assoc)
  qed
qed

lemma collate_system_eq:
  "collate_system ks st =
     set_SystemMissingFromBank
       (go_append (SystemMissingFromBank (Unmatched (report st)))
          (concat (map (lookup_list (systemMap st)) ks))) (report st)"
  unfolding collate_system_def by (rule collate_system_fold)

lemma bucket_Some:
  "bucket bankTxs (Some al) =
     Inr (Some (foldl (\<lambda>al bankTx. group_append (BankSource bankTx) bankTx al) al bankTxs))"
  by (induction bankTxs arbitrary: al) simp_all

lemma collate_bank_Some:
  "collate_bank ks bm (Some al) =
     Inr (Some (foldl (\<lambda>al bankTx. group_append (BankSource bankTx) bankTx al) al
       (concat (map (lookup_list bm) ks))))"
proof (induction ks arbitrary: al)
  case Nil
  show ?case by simp
next
  case (Cons k ks)
  show ?case
    by (cases "map_of bm k") (simp_all add: Cons.IH lookup_list_def bucket_Some)
qed

lemma count_sum_list:
  "foldl (\<lambda>count (k, v). count + length v) c al = c + sum_list (map (\<lambda>p. length (snd p)) al)"
  by (induction al arbitrary: c) (simp_all split: prod.splits)

lemma sum_group_append:
  "sum_list (map (\<lambda>p. length (snd p)) (group_append key x al)) =
   Suc (sum_list (map (\<lambda>p. length (snd p)) al))"
proof (induction al)
  case Nil
  show ?case by (simp add: group_append_def)
next
  case (Cons p al)
  obtain k v where p: "p = (k, v)" by (cases p)
  show ?case
  proof (cases "k = key")
    case True
    then show ?thesis by (simp add: group_append_def p)
  next
    case False
    then have "group_append key x (p # al) = p # group_append key x al"
      by (simp add: group_append_def p)
    then show ?thesis using Cons.IH by simp
  qed
qed

lemma sum_buckets_fold:
  "sum_list (map (\<lambda>p. length (snd p))
     (foldl (\<lambda>al bankTx. group_append (BankSource bankTx) bankTx al) al bankTxs)) =
   sum_list (map (\<lambda>p. length (snd p)) al) + length bankTxs"
  by (induction bankTxs arbitrary: al) (simp_all add: sum_group_append)

lemma countBankMapItems_buckets: "countBankMapItems (Some (buckets bankTxs)) = length bankTxs"
  by (simp add: countBankMapItems_def buckets_def count_sum_list sum_buckets_fold)

lemma map_of_buckets:
  "map_of (buckets bankTxs) src =
     (if filter (\<lambda>b. BankSource b = src) bankTxs = [] then None
      else Some (filter (\<lambda>b. BankSource b = src) bankTxs))"
  using map_of_group_fold[of "\<lambda>_. True" BankSource "[]" bankTxs src]
  by (simp add: buckets_def)

lemma collate_eq:
  assumes "BankMissingFromSystem (Unmatched (report st)) = Some []"
    and "SystemMissingFromBank (Unmatched (report st)) = None"
  shows "collate ord st =
     Inr ((report st)\<lparr>Unmatched :=
       \<lparr>UnmatchedCount =
          length (concat (map (lookup_list (systemMap st)) (system_order ord))) +
          length (concat (map (lookup_list (bankMap st)) (bank_order ord))),
        SystemMissingFromBank =
          go_append None (concat (map (lookup_list (systemMap st)) (system_order ord))),
        BankMissingFromSystem =
          Some (buckets (concat (map (lookup_list (bankMap st)) (bank_order ord))))\<rparr>\<rparr>)"
proof -
  have u: "Unmatched (report st) = \<lparr>UnmatchedCount = UnmatchedCount (Unmatched (report st)),
      SystemMissingFromBank = None, BankMissingFromSystem = Some []\<rparr>"
    using assms by simp
  show ?thesis
    unfolding collate_def collate_system_eq Let_def
    by (simp add: set_SystemMissingFromBank_def assms collate_bank_Some
        countBankMapItems_buckets[unfolded buckets_def] buckets_def len_elems elems_go_append)
       (simp add: elems_def)
qed

section \<open>The report of a run\<close>

lemma apply_pairs_initial:
  "apply_pairs (initial_report start end' n m) ps =
     \<lparr>ReconciliationSummary = \<lparr>
        TimeframeStart = format_date start,
        TimeframeEnd = format_date end',
        TotalSystemTransactionsProcessed = n,
        TotalBankTransactionsProcessed = m,
        MatchedTransactions = length ps\<rparr>,
      Discrepant = \<lparr>
        Count = length (filter exceeds ps),
        TotalDiscrepancyValue = sum_list (map discrepancy (filter exceeds ps)),
        Details = Some (map detail (filter exceeds ps))\<rparr>,
      Unmatched = \<lparr>UnmatchedCount = 0, SystemMissingFromBank = None,
        BankMissingFromSystem = Some []\<rparr>\<rparr>"
  by (rule ReconciliationReport.equality)
     (simp_all add: apply_pairs_summary apply_pairs_discrepant apply_pairs_unmatched
        initial_report_def go_append_Some)

lemma matching_pairs: "pairs (matching ks r fs fb) = matched_pairs ks fs fb"
  using core_matching[of ks r fs fb] by (simp add: matched_pairs_def core_def)

lemma matching_systemMap:
  "systemMap (matching ks r fs fb) = systemMap (matching ks (initial_report 0 0 (length fs) (length fb)) fs fb)"
  using core_matching[of ks r fs fb] by (simp add: core_def)

lemma matching_bankMap:
  "bankMap (matching ks r fs fb) = bankMap (matching ks (initial_report 0 0 (length fs) (length fb)) fs fb)"
  using core_matching[of ks r fs fb] by (simp add: core_def)

lemma collate_matching:
  "collate ord (matching (match_order ord) (initial_report start end' (length fs) (length fb)) fs fb) =
     Inr (final_report ord fs fb start end')"
proof -
  let ?r = "initial_report start end' (length fs) (length fb)"
  let ?st = "matching (match_order ord) ?r fs fb"
  have rep: "report ?st = apply_pairs ?r (matched_pairs (match_order ord) fs fb)"
    by (simp add: report_matching matching_pairs)
  have sm: "systemMap ?st = systemMap (matching (match_order ord) (initial_report 0 0 (length fs) (length fb)) fs fb)"
    by (rule matching_systemMap)
  have bm: "bankMap ?st = bankMap (matching (match_order ord) (initial_report 0 0 (length fs) (length fb)) fs fb)"
    by (rule matching_bankMap)
  have "collate ord ?st = Inr ((report ?st)\<lparr>Unmatched :=
       \<lparr>UnmatchedCount =
          length (concat (map (lookup_list (systemMap ?st)) (system_order ord))) +
          length (concat (map (lookup_list (bankMap ?st)) (bank_order ord))),
        SystemMissingFromBank =
          go_append None (concat (map (lookup_list (systemMap ?st)) (system_order ord))),
        BankMissingFromSystem =
          Some (buckets (concat (map (lookup_list (bankMap ?st)) (bank_order ord))))\<rparr>\<rparr>)"
    by (rule collate_eq) (simp_all add: rep apply_pairs_initial)
  then show ?thesis
    unfolding sm bm rep apply_pairs_initial
    by (simp add: final_report_def system_only_def bank_only_def Let_def)
qed

lemma Reconcile_Inr:
  "Reconcile ord (Inr ss) (Inr bs) start end' =
     Inr (final_report ord (filterSystemTransactionsByDate ss start end')
            (filterBankTransactionsByDate bs start end') start end')"
  by (simp add: Reconcile_def Let_def collate_matching)

lemma match_groups_empty: "systemMap st = [] \<Longrightarrow> match_groups ks st = st"
  unfolding match_groups_def
  by (induction ks) (simp_all add: match_key_def)

lemma grouping_Nil: "grouping r [] [] = initial_state r"
  by (simp add: grouping_def build_bankMap_def build_systemMap_def pass1_def initial_state_def)

lemma matching_Nil: "matching ks r [] [] = initial_state r"
  by (simp add: matching_def grouping_Nil match_groups_empty initial_state_def)

lemma concat_lookup_Nil: "concat (map (lookup_list []) ks) = []"
  by (induction ks) (simp_all add: lookup_list_def)

lemma final_report_Nil: "final_report ord [] [] start end' = initial_report start end' 0 0"
  by (simp add: final_report_def matched_pairs_def system_only_def bank_only_def matching_Nil
      initial_state_def concat_lookup_Nil go_append_def buckets_def initial_report_def)

lemma buckets_Nil_iff: "buckets bankTxs = [] \<longleftrightarrow> bankTxs = []"
proof
  assume "buckets bankTxs = []"
  then have "countBankMapItems (Some (buckets bankTxs)) = 0" by (simp add: countBankMapItems_def)
  then show "bankTxs = []" by (simp add: countBankMapItems_buckets)
qed (simp add: buckets_def)

lemma buckets_Nil: "buckets [] = []"
  by (simp add: buckets_def)

section \<open>The claims\<close>

text \<open>
  C3. A system record and a bank record at 23:30 on the end calendar day (2025-01-08, in a
  window from 2025-01-01 to 2025-01-08): the system filter drops the record, the bank
  filter keeps it. The two filters do not apply the same bound, and the system filter
  does not include the whole end day.
\<close>

theorem filter_end_day_asymmetry:
  "format_date (20096 * 24 * Hour + 23 * Hour + 1800000000000) = ''2025-01-08'' \<and>
   format_date (20096 * 24 * Hour) = ''2025-01-08'' \<and>
   filterSystemTransactionsByDate
     [\<lparr>TrxID = ''TRX001'', Amount = 100, Type = DEBIT,
       TransactionTime = 20096 * 24 * Hour + 23 * Hour + 1800000000000\<rparr>]
     (20089 * 24 * Hour) (20096 * 24 * Hour) = [] \<and>
   filterBankTransactionsByDate
     [\<lparr>UniqueIdentifier = ''BANK001'', BankAmount = - 100,
       Date = 20096 * 24 * Hour + 23 * Hour + 1800000000000, Description = ''Purchase'',
       BankSource = ''bank_A.csv'', NormalizedAmount = 100, BankType = DEBIT\<rparr>]
     (20089 * 24 * Hour) (20096 * 24 * Hour) =
     [\<lparr>UniqueIdentifier = ''BANK001'', BankAmount = - 100,
       Date = 20096 * 24 * Hour + 23 * Hour + 1800000000000, Description = ''Purchase'',
       BankSource = ''bank_A.csv'', NormalizedAmount = 100, BankType = DEBIT\<rparr>]"
proof (intro conjI)
  show "format_date (20096 * 24 * Hour + 23 * Hour + 1800000000000) = ''2025-01-08''"
    by code_simp
  show "format_date (20096 * 24 * Hour) = ''2025-01-08''"
    by code_simp
  show "filterSystemTransactionsByDate
     [\<lparr>TrxID = ''TRX001'', Amount = 100, Type = DEBIT,
       TransactionTime = 20096 * 24 * Hour + 23 * Hour + 1800000000000\<rparr>]
     (20089 * 24 * Hour) (20096 * 24 * Hour) = []"
    by (simp add: filterSystemTransactionsByDate_def Hour_def)
  show "filterBankTransactionsByDate
     [\<lparr>UniqueIdentifier = ''BANK001'', BankAmount = - 100,
       Date = 20096 * 24 * Hour + 23 * Hour + 1800000000000, Description = ''Purchase'',
       BankSource = ''bank_A.csv'', NormalizedAmount = 100, BankType = DEBIT\<rparr>]
     (20089 * 24 * Hour) (20096 * 24 * Hour) =
     [\<lparr>UniqueIdentifier = ''BANK001'', BankAmount = - 100,
       Date = 20096 * 24 * Hour + 23 * Hour + 1800000000000, Description = ''Purchase'',
       BankSource = ''bank_A.csv'', NormalizedAmount = 100, BankType = DEBIT\<rparr>]"
    by (simp add: filterBankTransactionsByDate_def Hour_def Nanosecond_def)
qed

text \<open>
  C7. \<open>Reconcile\<close> returns an error, and no report, when the system ingestion fails and
  when the bank ingestion fails. When both succeed it returns a report, whatever the
  orders of the map loops: its discrepancy details and its bank-only map are allocated
  containers, empty when the report counts no discrepancy and no bank-only record; and
  when both filtered lists are empty the report is the initial one, with every count zero.
\<close>

theorem Reconcile_errors_and_containers:
  "Reconcile ord (Inl err) bankResult start end' = Inl (CouldNotGetSystemTransactions err) \<and>
   Reconcile ord (Inr ss) (Inl err) start end' = Inl (CouldNotGetBankTransactions err) \<and>
   (\<exists>rep ds al.
      Reconcile ord (Inr ss) (Inr bs) start end' = Inr rep \<and>
      Details (Discrepant rep) = Some ds \<and>
      BankMissingFromSystem (Unmatched rep) = Some al \<and>
      (Count (Discrepant rep) = 0 \<longrightarrow> ds = []) \<and>
      (countBankMapItems (BankMissingFromSystem (Unmatched rep)) = 0 \<longrightarrow> al = [])) \<and>
   (filterSystemTransactionsByDate ss start end' = [] \<and>
    filterBankTransactionsByDate bs start end' = [] \<longrightarrow>
      Reconcile ord (Inr ss) (Inr bs) start end' = Inr (initial_report start end' 0 0))"
proof (intro conjI)
  show "Reconcile ord (Inl err) bankResult start end' = Inl (CouldNotGetSystemTransactions err)"
    by (simp add: Reconcile_def)
  show "Reconcile ord (Inr ss) (Inl err) start end' = Inl (CouldNotGetBankTransactions err)"
    by (simp add: Reconcile_def)
  let ?fs = "filterSystemTransactionsByDate ss start end'"
  let ?fb = "filterBankTransactionsByDate bs start end'"
  let ?rep = "final_report ord ?fs ?fb start end'"
  have "Count (Discrepant ?rep) = 0 \<longrightarrow> Details (Discrepant ?rep) = Some []"
    by (simp add: final_report_def Let_def)
  moreover have "countBankMapItems (BankMissingFromSystem (Unmatched ?rep)) = 0 \<longrightarrow>
      BankMissingFromSystem (Unmatched ?rep) = Some []"
    by (simp add: final_report_def Let_def countBankMapItems_buckets buckets_Nil)
  moreover have "\<exists>ds. Details (Discrepant ?rep) = Some ds"
    by (simp add: final_report_def Let_def)
  moreover have "\<exists>al. BankMissingFromSystem (Unmatched ?rep) = Some al"
    by (simp add: final_report_def Let_def)
  ultimately show "\<exists>rep ds al.
      Reconcile ord (Inr ss) (Inr bs) start end' = Inr rep \<and>
      Details (Discrepant rep) = Some ds \<and>
      BankMissingFromSystem (Unmatched rep) = Some al \<and>
      (Count (Discrepant rep) = 0 \<longrightarrow> ds = []) \<and>
      (countBankMapItems (BankMissingFromSystem (Unmatched rep)) = 0 \<longrightarrow> al = [])"
    unfolding Reconcile_Inr by auto
  show "?fs = [] \<and> ?fb = [] \<longrightarrow>
      Reconcile ord (Inr ss) (Inr bs) start end' = Inr (initial_report start end' 0 0)"
    by (simp add: Reconcile_Inr final_report_Nil)
qed

theorem Reconcile_errors_and_containers_witness:
  "Reconcile \<lparr>match_order = [], system_order = [], bank_order = []\<rparr>
     (Inl ''unreadable'') (Inr []) (20089 * 24 * Hour) (20096 * 24 * Hour) =
     Inl (CouldNotGetSystemTransactions ''unreadable'') \<and>
   Reconcile \<lparr>match_order = [], system_order = [], bank_order = []\<rparr>
     (Inr [\<lparr>TrxID = ''TRX003'', Amount = 75.25, Type = DEBIT, TransactionTime = 20099 * 24 * Hour\<rparr>])
     (Inl ''unreadable'') (20089 * 24 * Hour) (20096 * 24 * Hour) =
     Inl (CouldNotGetBankTransactions ''unreadable'') \<and>
   Reconcile \<lparr>match_order = [], system_order = [], bank_order = []\<rparr>
     (Inr [\<lparr>TrxID = ''TRX003'', Amount = 75.25, Type = DEBIT, TransactionTime = 20099 * 24 * Hour\<rparr>])
     (Inr [] :: string + BankTransaction list) (20089 * 24 * Hour) (20096 * 24 * Hour) =
     Inr (initial_report (20089 * 24 * Hour) (20096 * 24 * Hour) 0 0)"
  using Reconcile_errors_and_containers[of "\<lparr>match_order = [], system_order = [], bank_order = []\<rparr>"
      "''unreadable''" "Inr []" "20089 * 24 * Hour" "20096 * 24 * Hour"
      "[\<lparr>TrxID = ''TRX003'', Amount = 75.25, Type = DEBIT, TransactionTime = 20099 * 24 * Hour\<rparr>]" "[]"]
  apply (simp add: filterSystemTransactionsByDate_def filterBankTransactionsByDate_def Hour_def)
  apply (elim conjE)
  apply (intro conjI)
  apply assumption+
  done

end
